theory Spec2Isabelle
  imports Main "HOL-Library.Word" "HOL-Library.Log_Nat"
begin

section \<open>Strings and paths of \<^verbatim>\<open>scripts/create_icon.py\<close>\<close>

text \<open>
  Python's \<^verbatim>\<open>str(n)\<close> on an integer, as the f-strings of the script use it to build
  file names: decimal digits, most significant first, a leading minus sign for a
  negative number.
\<close>

fun str_nat :: "nat \<Rightarrow> string" where
  "str_nat n =
     (if n < 10 then [''0123456789'' ! n]
      else str_nat (n div 10) @ [''0123456789'' ! (n mod 10)])"

declare str_nat.simps [simp del]

definition str_int :: "int \<Rightarrow> string" where
  "str_int i = (if i < 0 then CHR ''-'' # str_nat (nat (- i)) else str_nat (nat i))"

type_synonym path = string

text \<open>Line 10: \<^verbatim>\<open>iconset_dir = "/tmp/Term.iconset"\<close>.\<close>

definition iconset_dir :: path where
  "iconset_dir = ''/tmp/Term.iconset''"

text \<open>The output path given to \<^verbatim>\<open>iconutil -o\<close> on line 85.\<close>

definition icns_path :: path where
  "icns_path = ''/tmp/Term.icns''"

text \<open>Line 13: the sizes rendered; line 76: the sizes that get an \<^verbatim>\<open>@2x\<close> variant.\<close>

definition sizes :: "int list" where
  "sizes = [16, 32, 64, 128, 256, 512, 1024]"

definition sizes_2x :: "int list" where
  "sizes_2x = [16, 32, 128, 256, 512]"

text \<open>
  Line 16, and line 77 with \<^verbatim>\<open>size*2\<close>:
  \<^verbatim>\<open>f"{iconset_dir}/icon_{size}x{size}.png"\<close>.
\<close>

definition base_png :: "int \<Rightarrow> path" where
  "base_png sz = iconset_dir @ ''/icon_'' @ str_int sz @ ''x'' @ str_int sz @ ''.png''"

text \<open>Line 78: \<^verbatim>\<open>f"{iconset_dir}/icon_{size}x{size}@2x.png"\<close>.\<close>

definition variant_png :: "int \<Rightarrow> path" where
  "variant_png sz =
     iconset_dir @ ''/icon_'' @ str_int sz @ ''x'' @ str_int sz @ ''@2x.png''"

section \<open>The world the script runs in\<close>

text \<open>
  The file system maps a path to what is there: a regular file with its bytes, or a
  directory. The script's own standard output is the list of the texts it prints, one
  entry for each \<^verbatim>\<open>print\<close>; \<open>calls\<close> is the list of the child processes it has
  started, \<open>writes\<close> the list of the files those children have written, both in order.
\<close>

type_synonym bytes = "8 word list"

datatype node = File bytes | Dir

type_synonym filesystem = "path \<rightharpoonup> node"

text \<open>
  The three argument vectors the script passes to \<^verbatim>\<open>subprocess.run\<close>:
  \<^verbatim>\<open>["python3", "-c", script]\<close> with the inline program formatted for a size and its
  path, \<^verbatim>\<open>["cp", src, dst]\<close>, and
  \<^verbatim>\<open>["iconutil", "-c", "icns", iconset_dir, "-o", "/tmp/Term.icns"]\<close>.
\<close>

datatype command = Python3_c int path | Cp path path | Iconutil path path

text \<open>
  The exceptions that can leave the script: \<^verbatim>\<open>os.makedirs\<close> raises
  \<^verbatim>\<open>FileExistsError\<close> or another \<^verbatim>\<open>OSError\<close>; \<^verbatim>\<open>subprocess.run\<close> raises an
  \<^verbatim>\<open>OSError\<close> when the program cannot be started, with \<^verbatim>\<open>check=True\<close>
  \<^verbatim>\<open>CalledProcessError\<close> carrying the return code and the command, and, with
  \<^verbatim>\<open>text=True\<close>, \<^verbatim>\<open>UnicodeDecodeError\<close> when captured output is not text in the
  encoding of the locale.
\<close>

datatype exn =
    FileExistsError path
  | MkdirError path
  | SpawnError command
  | CalledProcessError int command
  | UnicodeDecodeError

record world =
  fs :: filesystem
  out :: "string list"
  calls :: "command list"
  writes :: "path list"

datatype outcome = Completed world | Aborted exn world

text \<open>Sequencing of statements: an exception skips what follows.\<close>

fun and_then :: "outcome \<Rightarrow> (world \<Rightarrow> outcome) \<Rightarrow> outcome" where
  "and_then (Completed w) k = k w"
| "and_then (Aborted x w) k = Aborted x w"

text \<open>
  The exit status of the interpreter: 0 after the last statement, 1 after an exception
  nobody caught.
\<close>

fun exit_status :: "outcome \<Rightarrow> int" where
  "exit_status (Completed w) = 0"
| "exit_status (Aborted x w) = 1"

fun final_world :: "outcome \<Rightarrow> world" where
  "final_world (Completed w) = w"
| "final_world (Aborted x w) = w"

subsection \<open>What the environment decides\<close>

text \<open>
  A drawing child ends with a return code and has, or has not, encoded a PNG to its
  path (the inline program ignores the results of the Quartz calls, so the two are
  independent). \<open>None\<close> for any child means that the program could not be started.
\<close>

record draw_result =
  d_returncode :: int
  d_png :: "bytes option"

text \<open>
  What \<^verbatim>\<open>iconutil\<close> does: it ends with a return code, has written bytes to its
  standard output and standard error, and has, or has not, written the container file.
\<close>

record conv_process =
  c_returncode :: int
  c_stdout :: bytes
  c_stderr :: bytes
  c_icns :: "bytes option"

text \<open>
  What the script gets from \<^verbatim>\<open>subprocess.run\<close> with
  \<^verbatim>\<open>capture_output=True, text=True\<close>: the return code and the two captured streams as
  text.
\<close>

record conv_result =
  returncode :: int
  stdout :: string
  stderr :: string

text \<open>
  \<open>cp_status src dst\<close> is \<open>None\<close> when \<^verbatim>\<open>cp\<close> cannot be started, \<open>Some 0\<close> when
  nothing outside the arguments stops the copy, and \<open>Some rc\<close> for an input/output
  failure that makes it exit with \<open>rc\<close>. \<open>locale_decode\<close> is the decoding of captured
  bytes that \<^verbatim>\<open>text=True\<close> asks for, in the encoding of the locale and with newlines
  translated; \<open>None\<close> stands for \<^verbatim>\<open>UnicodeDecodeError\<close>.
\<close>

record env =
  mkdir_fails :: bool
  draw :: "int \<Rightarrow> draw_result option"
  cp_status :: "path \<Rightarrow> path \<Rightarrow> int option"
  iconutil :: "conv_process option"
  locale_decode :: "bytes \<Rightarrow> string option"

text \<open>\<^verbatim>\<open>print(x)\<close> of the script itself.\<close>

definition print :: "string \<Rightarrow> world \<Rightarrow> outcome" where
  "print s w = Completed (w\<lparr>out := out w @ [s]\<rparr>)"

text \<open>\<^verbatim>\<open>os.path.exists\<close>.\<close>

definition path_exists :: "filesystem \<Rightarrow> path \<Rightarrow> bool" where
  "path_exists f p = (f p \<noteq> None)"

section \<open>The statements of the script\<close>

text \<open>
  Line 11, \<^verbatim>\<open>os.makedirs(iconset_dir, exist_ok=True)\<close>: the library tries
  \<^verbatim>\<open>mkdir\<close> and, on an \<^verbatim>\<open>OSError\<close>, re-raises unless \<^verbatim>\<open>exist_ok\<close> is set and the
  path is a directory.
\<close>

definition makedirs_exist_ok :: "env \<Rightarrow> path \<Rightarrow> world \<Rightarrow> outcome" where
  "makedirs_exist_ok e d w =
     (case fs w d of
        Some Dir \<Rightarrow> Completed w
      | Some (File b) \<Rightarrow> Aborted (FileExistsError d) w
      | None \<Rightarrow>
          if mkdir_fails e then Aborted (MkdirError d) w
          else Completed (w\<lparr>fs := (fs w)(d \<mapsto> Dir)\<rparr>))"

text \<open>
  Lines 16 to 73, one iteration of the first loop:
  \<^verbatim>\<open>subprocess.run(["python3", "-c", script], check=True)\<close>.
\<close>

definition run_draw :: "env \<Rightarrow> int \<Rightarrow> world \<Rightarrow> outcome" where
  "run_draw e sz w =
     (let png_path = base_png sz;
          cmd = Python3_c sz png_path;
          w1 = w\<lparr>calls := calls w @ [cmd]\<rparr>
      in case draw e sz of
           None \<Rightarrow> Aborted (SpawnError cmd) w1
         | Some r \<Rightarrow>
             let w2 = (case d_png r of
                         None \<Rightarrow> w1
                       | Some b \<Rightarrow> w1\<lparr>fs := (fs w1)(png_path \<mapsto> File b),
                                      writes := writes w1 @ [png_path]\<rparr>)
             in if d_returncode r \<noteq> 0
                then Aborted (CalledProcessError (d_returncode r) cmd) w2
                else Completed w2)"

text \<open>Lines 15 to 73: \<^verbatim>\<open>for size in sizes:\<close>.\<close>

fun render_pass :: "env \<Rightarrow> int list \<Rightarrow> world \<Rightarrow> outcome" where
  "render_pass e [] w = Completed w"
| "render_pass e (sz # rest) w = and_then (run_draw e sz w) (render_pass e rest)"

text \<open>
  The \<^verbatim>\<open>cp\<close> utility on two operands. A source that is missing or is a directory makes
  it exit with 1; a target that is a directory receives the copy under the source's
  last path component; the copy replaces a regular file that is there.
\<close>

definition basename :: "path \<Rightarrow> string" where
  "basename p = rev (takeWhile (\<lambda>c. c \<noteq> CHR ''/'') (rev p))"

definition cp_target :: "filesystem \<Rightarrow> path \<Rightarrow> path \<Rightarrow> path" where
  "cp_target f src dst = (if f dst = Some Dir then dst @ ''/'' @ basename src else dst)"

text \<open>Line 80: \<^verbatim>\<open>subprocess.run(["cp", src, dst], check=True)\<close>.\<close>

definition run_cp :: "env \<Rightarrow> path \<Rightarrow> path \<Rightarrow> world \<Rightarrow> outcome" where
  "run_cp e src dst w =
     (let cmd = Cp src dst;
          w1 = w\<lparr>calls := calls w @ [cmd]\<rparr>
      in case cp_status e src dst of
           None \<Rightarrow> Aborted (SpawnError cmd) w1
         | Some rc \<Rightarrow>
             (case fs w src of
                Some (File b) \<Rightarrow>
                  let target = cp_target (fs w) src dst
                  in if fs w target = Some Dir then Aborted (CalledProcessError 1 cmd) w1
                     else if rc \<noteq> 0 then Aborted (CalledProcessError rc cmd) w1
                     else Completed (w1\<lparr>fs := (fs w1)(target \<mapsto> File b),
                                          writes := writes w1 @ [target]\<rparr>)
              | _ \<Rightarrow> Aborted (CalledProcessError 1 cmd) w1))"

text \<open>
  Lines 77 to 81, one iteration of the second loop: the copy and the line printed
  after it, both under the \<^verbatim>\<open>os.path.exists(src)\<close> guard.
\<close>

definition copy_step :: "env \<Rightarrow> int \<Rightarrow> world \<Rightarrow> outcome" where
  "copy_step e sz w =
     (let src = base_png (sz * 2);
          dst = variant_png sz
      in if path_exists (fs w) src
         then and_then (run_cp e src dst w) (print (''Created '' @ dst))
         else Completed w)"

text \<open>Lines 76 to 81: \<^verbatim>\<open>for size in [16, 32, 128, 256, 512]:\<close>.\<close>

fun copy_pass :: "env \<Rightarrow> int list \<Rightarrow> world \<Rightarrow> outcome" where
  "copy_pass e [] w = Completed w"
| "copy_pass e (sz # rest) w = and_then (copy_step e sz w) (copy_pass e rest)"

text \<open>
  The two lines printed on success (lines 89 and 90). The first starts with a newline
  and three characters beyond ASCII, given here as the bytes of their UTF-8 encoding in
  the source file.
\<close>

definition banner :: string where
  "banner = [CHR 0x0A, CHR 0xC3, CHR 0xA2, CHR 0xC5, CHR 0x93, CHR 0xE2, CHR 0x80, CHR 0xA6]
            @ '' Icon created: /tmp/Term.icns''"

definition install_hint :: string where
  "install_hint =
     ''To install: cp /tmp/Term.icns ~/Applications/Term.app/Contents/Resources/''"

text \<open>
  The result object of lines 84 to 87: both captured streams are decoded, the standard
  output first; a stream that cannot be decoded leaves no result.
\<close>

definition captured_text :: "env \<Rightarrow> conv_process \<Rightarrow> conv_result option" where
  "captured_text e p =
     (case locale_decode e (c_stdout p) of
        None \<Rightarrow> None
      | Some so \<Rightarrow>
          (case locale_decode e (c_stderr p) of
             None \<Rightarrow> None
           | Some se \<Rightarrow> Some \<lparr>returncode = c_returncode p, stdout = so, stderr = se\<rparr>))"

text \<open>
  Lines 84 to 92: the conversion and the report of its result. The tool has run to its
  end, and written what it writes, before its output is decoded.
\<close>

definition convert_to_icns :: "env \<Rightarrow> world \<Rightarrow> outcome" where
  "convert_to_icns e w =
     (let cmd = Iconutil iconset_dir icns_path;
          w1 = w\<lparr>calls := calls w @ [cmd]\<rparr>
      in case iconutil e of
           None \<Rightarrow> Aborted (SpawnError cmd) w1
         | Some p \<Rightarrow>
             let w2 = (case c_icns p of
                         None \<Rightarrow> w1
                       | Some b \<Rightarrow> w1\<lparr>fs := (fs w1)(icns_path \<mapsto> File b),
                                      writes := writes w1 @ [icns_path]\<rparr>)
             in case captured_text e p of
                  None \<Rightarrow> Aborted UnicodeDecodeError w2
                | Some result \<Rightarrow>
                    if returncode result = 0
                    then and_then (print banner w2) (print install_hint)
                    else print (''Error: '' @ stderr result) w2)"

text \<open>The script up to the conversion (lines 10 to 81), and the whole script.\<close>

definition start :: "filesystem \<Rightarrow> world" where
  "start f = \<lparr>fs = f, out = [], calls = [], writes = []\<rparr>"

definition prepare :: "env \<Rightarrow> filesystem \<Rightarrow> outcome" where
  "prepare e f =
     and_then (and_then (makedirs_exist_ok e iconset_dir (start f)) (render_pass e sizes))
       (copy_pass e sizes_2x)"

definition main :: "env \<Rightarrow> filesystem \<Rightarrow> outcome" where
  "main e f = and_then (prepare e f) (convert_to_icns e)"

text \<open>The exception that ended a run, if any.\<close>

fun raised :: "outcome \<Rightarrow> exn option" where
  "raised (Completed w) = None"
| "raised (Aborted x w) = Some x"

text \<open>The number of path separators in a path.\<close>

definition slashes :: "string \<Rightarrow> nat" where
  "slashes p = length (filter (\<lambda>c. c = CHR ''/'') p)"

section \<open>The numbers of the inline drawing program\<close>

text \<open>
  The program handed to each child computes its measurements with Python's \<^verbatim>\<open>float\<close>,
  an IEEE-754 binary64. A finite double is given here by an integer mantissa and a binary
  exponent, \<open>Double m e\<close> standing for \<open>m * 2 ^ e\<close>; several pairs stand for the same
  number, and \<open>val\<close> is the number. Results are rounded to the nearest double, ties to
  the even mantissa, with 53 bits of precision and the smallest exponent \<open>- 1074\<close>.
  Infinities are left out: no magnitude near \<open>2 ^ 1024\<close> arises from the sizes looked at.
\<close>

datatype double = Double int int

definition pow2 :: "int \<Rightarrow> rat" where
  "pow2 k = (if 0 \<le> k then 2 ^ nat k else 1 / 2 ^ nat (- k))"

fun val :: "double \<Rightarrow> rat" where
  "val (Double m e) = of_int m * pow2 e"

text \<open>The number of binary digits of the absolute value of an integer.\<close>

definition bitlen :: "int \<Rightarrow> int" where
  "bitlen n = int (floorlog 2 (nat \<bar>n\<bar>))"

text \<open>The integer nearest to \<open>a / d\<close> for a positive \<open>d\<close>, the even one of two equally near.\<close>

definition round_div :: "int \<Rightarrow> int \<Rightarrow> int" where
  "round_div a d =
     (let q = a div d; r = a mod d
      in if 2 * r < d then q else if d < 2 * r then q + 1 else if even q then q else q + 1)"

text \<open>The double nearest to \<open>n * 2 ^ e\<close>: what an arithmetic operation returns.\<close>

definition round_double :: "int \<Rightarrow> int \<Rightarrow> double" where
  "round_double n e =
     (let s = max (bitlen n - 53) (- 1074 - e)
      in if s \<le> 0 then Double n e else Double (round_div n (2 ^ nat s)) (e + s))"

text \<open>
  The double nearest to the fraction \<open>p / q\<close> with \<open>q\<close> positive: what a decimal literal
  of the program text denotes (\<^verbatim>\<open>0.22\<close> is \<open>double_of_ratio 22 100\<close>).
\<close>

definition double_of_ratio :: "int \<Rightarrow> int \<Rightarrow> double" where
  "double_of_ratio p q =
     (if p = 0 then Double 0 0
      else let k = bitlen p - bitlen q;
               b = (if (if 0 \<le> k then q * 2 ^ nat k \<le> \<bar>p\<bar> else q \<le> \<bar>p\<bar> * 2 ^ nat (- k))
                    then k else k - 1);
               e = max (b - 52) (- 1074)
           in if e \<le> 0 then Double (round_div (p * 2 ^ nat (- e)) q) e
              else Double (round_div p (q * 2 ^ nat e)) e)"

text \<open>A Python number is an \<^verbatim>\<open>int\<close> or a \<^verbatim>\<open>float\<close>.\<close>

datatype pynum = PyInt int | PyFloat double

fun num_val :: "pynum \<Rightarrow> rat" where
  "num_val (PyInt i) = of_int i"
| "num_val (PyFloat d) = val d"

definition float_lit :: "int \<Rightarrow> int \<Rightarrow> pynum" where
  "float_lit p q = PyFloat (double_of_ratio p q)"

text \<open>The conversion of an operand to \<^verbatim>\<open>float\<close> in mixed arithmetic.\<close>

fun to_double :: "pynum \<Rightarrow> double" where
  "to_double (PyInt i) = round_double i 0"
| "to_double (PyFloat d) = d"

fun double_mul :: "double \<Rightarrow> double \<Rightarrow> double" where
  "double_mul (Double m e) (Double n f) = round_double (m * n) (e + f)"

text \<open>Python's \<^verbatim>\<open>*\<close>: exact on two integers, a rounded double otherwise.\<close>

fun py_mul :: "pynum \<Rightarrow> pynum \<Rightarrow> pynum" where
  "py_mul (PyInt i) (PyInt j) = PyInt (i * j)"
| "py_mul a b = PyFloat (double_mul (to_double a) (to_double b))"

text \<open>
  Python's \<^verbatim>\<open>max(a, b)\<close>: the second argument only when it is greater, compared by
  value; the result keeps the type of the argument chosen.
\<close>

definition py_max :: "pynum \<Rightarrow> pynum \<Rightarrow> pynum" where
  "py_max a b = (if num_val a < num_val b then b else a)"

text \<open>Line 39: \<^verbatim>\<open>CGContextSetLineWidth(context, max(1, size * 0.015))\<close>.\<close>

definition border_line_width :: "int \<Rightarrow> pynum" where
  "border_line_width sz = py_max (PyInt 1) (py_mul (PyInt sz) (float_lit 15 1000))"

text \<open>
  Lines 59 to 62, the four arguments of \<^verbatim>\<open>CGRectMake\<close> on line 63:
  \<^verbatim>\<open>cursorX = size * 0.5\<close>, \<^verbatim>\<open>cursorY = size * 0.38\<close>,
  \<^verbatim>\<open>cursorW = size * 0.22\<close>, \<^verbatim>\<open>cursorH = max(2, size * 0.045)\<close>.
\<close>

definition cursorX :: "int \<Rightarrow> pynum" where
  "cursorX sz = py_mul (PyInt sz) (float_lit 5 10)"

definition cursorY :: "int \<Rightarrow> pynum" where
  "cursorY sz = py_mul (PyInt sz) (float_lit 38 100)"

definition cursorW :: "int \<Rightarrow> pynum" where
  "cursorW sz = py_mul (PyInt sz) (float_lit 22 100)"

definition cursorH :: "int \<Rightarrow> pynum" where
  "cursorH sz = py_max (PyInt 2) (py_mul (PyInt sz) (float_lit 45 1000))"

text \<open>Python's \<^verbatim>\<open>+\<close>: exact on two integers, a rounded double otherwise.\<close>

fun double_add :: "double \<Rightarrow> double \<Rightarrow> double" where
  "double_add (Double m e) (Double n f) =
     (if e \<le> f then round_double (m + n * 2 ^ nat (f - e)) e
      else round_double (m * 2 ^ nat (e - f) + n) f)"

fun py_add :: "pynum \<Rightarrow> pynum \<Rightarrow> pynum" where
  "py_add (PyInt i) (PyInt j) = PyInt (i + j)"
| "py_add a b = PyFloat (double_add (to_double a) (to_double b))"

text \<open>
  Python's \<^verbatim>\<open>/\<close>: the double nearest to the quotient, and \<^verbatim>\<open>ZeroDivisionError\<close>,
  here \<open>None\<close>, for a divisor that is zero.
\<close>

fun double_div :: "double \<Rightarrow> double \<Rightarrow> double" where
  "double_div (Double m e) (Double n f) =
     (let p = (if n < 0 then - m else m); q = \<bar>n\<bar>
      in if f \<le> e then double_of_ratio (p * 2 ^ nat (e - f)) q
         else double_of_ratio p (q * 2 ^ nat (f - e)))"

fun py_truediv :: "pynum \<Rightarrow> pynum \<Rightarrow> pynum option" where
  "py_truediv a b =
     (if num_val b = 0 then None
      else Some (PyFloat (case (a, b) of
                            (PyInt i, PyInt j) \<Rightarrow> double_of_ratio (if j < 0 then - i else i) \<bar>j\<bar>
                          | _ \<Rightarrow> double_div (to_double a) (to_double b))))"

text \<open>The Quartz calls of the block that draws the prompt sign, with their arguments.\<close>

datatype line_cap = kCGLineCapButt | kCGLineCapRound | kCGLineCapSquare

datatype line_join = kCGLineJoinMiter | kCGLineJoinRound | kCGLineJoinBevel

datatype quartz_call =
    CGContextSetRGBStrokeColor pynum pynum pynum pynum
  | CGContextSetLineWidth pynum
  | CGContextSetLineCap line_cap
  | CGContextSetLineJoin line_join
  | CGContextMoveToPoint pynum pynum
  | CGContextAddLineToPoint pynum pynum
  | CGContextStrokePath

text \<open>
  Lines 44 to 55 of the inline program, in the order of the calls; the context, their
  first argument, is left out. \<open>None\<close> would be the \<^verbatim>\<open>ZeroDivisionError\<close> of
  \<^verbatim>\<open>h/2\<close>.
\<close>

definition chevron :: "int \<Rightarrow> quartz_call list option" where
  "chevron sz =
     (let x = py_mul (PyInt sz) (float_lit 25 100);
          y = py_mul (PyInt sz) (float_lit 38 100);
          w = py_mul (PyInt sz) (float_lit 18 100);
          h = py_mul (PyInt sz) (float_lit 24 100)
      in case py_truediv h (PyInt 2) of
           None \<Rightarrow> None
         | Some half \<Rightarrow>
             Some [CGContextSetRGBStrokeColor (float_lit 0 10) (float_lit 85 100)
                     (float_lit 45 100) (float_lit 10 10),
                   CGContextSetLineWidth
                     (py_max (PyInt 2) (py_mul (PyInt sz) (float_lit 55 1000))),
                   CGContextSetLineCap kCGLineCapRound,
                   CGContextSetLineJoin kCGLineJoinRound,
                   CGContextMoveToPoint x (py_add y h),
                   CGContextAddLineToPoint (py_add x w) (py_add y half),
                   CGContextAddLineToPoint x y,
                   CGContextStrokePath])"


section \<open>Decoding in a UTF-8 locale\<close>

text \<open>
  The strict UTF-8 decoder of Python on the values of the bytes: shortest forms only, no
  surrogates, nothing above U+10FFFF. A text is kept as the bytes of its UTF-8
  encoding, so decoding checks the bytes and translates the line ends (a carriage
  return, alone or before a line feed, becomes a line feed).
\<close>

definition continuation :: "nat \<Rightarrow> bool" where
  "continuation b = (0x80 \<le> b \<and> b \<le> 0xBF)"

fun utf8_ok :: "nat list \<Rightarrow> bool" where
  "utf8_ok [] = True"
| "utf8_ok (a # bs) =
     (if a < 0x80 then utf8_ok bs
      else if 0xC2 \<le> a \<and> a \<le> 0xDF then
        (case bs of b # r \<Rightarrow> continuation b \<and> utf8_ok r | _ \<Rightarrow> False)
      else if 0xE0 \<le> a \<and> a \<le> 0xEF then
        (case bs of
           b # c # r \<Rightarrow>
             continuation b \<and> continuation c
             \<and> (if a = 0xE0 then 0xA0 \<le> b else True)
             \<and> (if a = 0xED then b \<le> 0x9F else True) \<and> utf8_ok r
         | _ \<Rightarrow> False)
      else if 0xF0 \<le> a \<and> a \<le> 0xF4 then
        (case bs of
           b # c # d # r \<Rightarrow>
             continuation b \<and> continuation c \<and> continuation d
             \<and> (if a = 0xF0 then 0x90 \<le> b else True)
             \<and> (if a = 0xF4 then b \<le> 0x8F else True) \<and> utf8_ok r
         | _ \<Rightarrow> False)
      else False)"

fun translate_newlines :: "string \<Rightarrow> string" where
  "translate_newlines [] = []"
| "translate_newlines [c] = [if c = CHR 0x0D then CHR 0x0A else c]"
| "translate_newlines (c # d # r) =
     (if c = CHR 0x0D \<and> d = CHR 0x0A then CHR 0x0A # translate_newlines r
      else if c = CHR 0x0D then CHR 0x0A # translate_newlines (d # r)
      else c # translate_newlines (d # r))"

definition utf8_text :: "bytes \<Rightarrow> string option" where
  "utf8_text bs =
     (if utf8_ok (map unat bs)
      then Some (translate_newlines (map (\<lambda>b. char_of (unat b)) bs))
      else None)"

section \<open>Concrete environments\<close>

text \<open>
  Every tool works, in a UTF-8 locale: the child for a size writes one byte that tells
  the size, the copies go through, the conversion writes four bytes, prints nothing and
  returns 0.
\<close>

definition working_env :: env where
  "working_env =
     \<lparr>mkdir_fails = False,
      draw = (\<lambda>sz. Some \<lparr>d_returncode = 0, d_png = Some [word_of_int (sz div 16)]\<rparr>),
      cp_status = (\<lambda>src dst. Some 0),
      iconutil = Some \<lparr>c_returncode = 0, c_stdout = [], c_stderr = [],
                        c_icns = Some [105, 99, 110, 115]\<rparr>,
      locale_decode = utf8_text\<rparr>"

text \<open>The same, but the child for size 64 exits with 1 and writes nothing.\<close>

definition failing_draw_env :: env where
  "failing_draw_env =
     working_env\<lparr>draw := (\<lambda>sz. if sz = 64 then Some \<lparr>d_returncode = 1, d_png = None\<rparr>
                                 else draw working_env sz)\<rparr>"

text \<open>
  The same as the first, but the conversion exits with 1 and the message
  \<^verbatim>\<open>Invalid Iconset.\<close> on its standard error.
\<close>

definition failing_convert_env :: env where
  "failing_convert_env =
     working_env\<lparr>iconutil := Some \<lparr>c_returncode = 1, c_stdout = [],
        c_stderr = [0x49, 0x6E, 0x76, 0x61, 0x6C, 0x69, 0x64, 0x20,
                    0x49, 0x63, 0x6F, 0x6E, 0x73, 0x65, 0x74, 0x2E],
        c_icns = None\<rparr>\<rparr>"

text \<open>
  The same again, but what the conversion writes to its standard error is the single
  byte \<open>0xFF\<close>, which is not UTF-8.
\<close>

definition undecodable_stderr_env :: env where
  "undecodable_stderr_env =
     working_env\<lparr>iconutil := Some \<lparr>c_returncode = 1, c_stdout = [], c_stderr = [0xFF],
                                   c_icns = None\<rparr>\<rparr>"

text \<open>The same as the first, but every \<^verbatim>\<open>cp\<close> exits with 1.\<close>

definition failing_cp_env :: env where
  "failing_cp_env = working_env\<lparr>cp_status := (\<lambda>src dst. Some 1)\<rparr>"

text \<open>
  A file system left by an earlier run: the directory is there, and so are an older
  16-pixel image, a 32-pixel image, an older variant and an older container.
\<close>

definition stale_files :: filesystem where
  "stale_files =
     [iconset_dir \<mapsto> Dir, base_png 16 \<mapsto> File [7], base_png 32 \<mapsto> File [9],
      variant_png 16 \<mapsto> File [7], icns_path \<mapsto> File []]"

text \<open>The state of the script after the first loop in the first environment.\<close>

definition rendered_world :: world where
  "rendered_world = final_world (render_pass working_env sizes (start Map.empty))"

section \<open>Decimal strings and the paths built from them\<close>

lemma digit_nth_inj:
  assumes "a < 10" "b < 10" "''0123456789'' ! a = ''0123456789'' ! b"
  shows "a = b"
proof -
  have "a \<in> {0,1,2,3,4,5,6,7,8,9}" "b \<in> {0,1,2,3,4,5,6,7,8,9}"
    using assms(1,2) by auto
  then show ?thesis using assms(3) by auto
qed

lemma digit_nth_mem: "a < 10 \<Longrightarrow> ''0123456789'' ! a \<in> set ''0123456789''"
  using nth_mem [of a "''0123456789''"] by simp

lemma str_nat_digits: "set (str_nat n) \<subseteq> set ''0123456789''"
proof (induction n rule: str_nat.induct)
  case (1 n)
  show ?case
  proof (cases "n < 10")
    case True
    then show ?thesis using digit_nth_mem [of n] by (subst str_nat.simps) simp
  next
    case False
    have "n mod 10 < 10" by simp
    then have "''0123456789'' ! (n mod 10) \<in> set ''0123456789''" by (rule digit_nth_mem)
    with False "1.IH" show ?thesis by (subst str_nat.simps) simp
  qed
qed

lemma str_nat_nonempty: "str_nat n \<noteq> []"
  by (subst str_nat.simps) simp

lemma str_nat_inj: "str_nat n = str_nat m \<Longrightarrow> n = m"
proof (induction n arbitrary: m rule: str_nat.induct)
  case (1 n)
  show ?case
  proof (cases "n < 10")
    case n: True
    show ?thesis
    proof (cases "m < 10")
      case True
      with n "1.prems" show ?thesis
        by (simp add: str_nat.simps [of n] str_nat.simps [of m] digit_nth_inj)
    next
      case False
      with n "1.prems" str_nat_nonempty [of "m div 10"] show ?thesis
        by (simp add: str_nat.simps [of n] str_nat.simps [of m])
    qed
  next
    case n: False
    show ?thesis
    proof (cases "m < 10")
      case True
      with n "1.prems" str_nat_nonempty [of "n div 10"] show ?thesis
        by (simp add: str_nat.simps [of n] str_nat.simps [of m])
    next
      case False
      with n "1.prems" have eq: "str_nat (n div 10) = str_nat (m div 10)"
        and d: "''0123456789'' ! (n mod 10) = ''0123456789'' ! (m mod 10)"
        by (simp_all add: str_nat.simps [of n] str_nat.simps [of m])
      from "1.IH" [OF n eq] have "n div 10 = m div 10" .
      moreover from d have "n mod 10 = m mod 10" by (intro digit_nth_inj) simp_all
      ultimately show ?thesis by (metis div_mult_mod_eq)
    qed
  qed
qed

lemma str_int_inj: "str_int i = str_int j \<Longrightarrow> i = j"
proof -
  assume eq: "str_int i = str_int j"
  have nd: "\<And>n. hd (str_nat n) \<noteq> CHR ''-''"
  proof -
    fix n
    have "hd (str_nat n) \<in> set (str_nat n)" using str_nat_nonempty by simp
    then have "hd (str_nat n) \<in> set ''0123456789''" using str_nat_digits by blast
    then show "hd (str_nat n) \<noteq> CHR ''-''" by auto
  qed
  show ?thesis
  proof (cases "i < 0")
    case i: True
    show ?thesis
    proof (cases "j < 0")
      case True
      with i eq have "nat (- i) = nat (- j)" by (simp add: str_int_def str_nat_inj)
      with i True show ?thesis by simp
    next
      case False
      with i eq have "CHR ''-'' # str_nat (nat (- i)) = str_nat (nat j)"
        by (simp add: str_int_def)
      then have "hd (str_nat (nat j)) = CHR ''-''" by (metis list.sel(1))
      with nd [of "nat j"] show ?thesis by simp
    qed
  next
    case i: False
    show ?thesis
    proof (cases "j < 0")
      case True
      with i eq have "str_nat (nat i) = CHR ''-'' # str_nat (nat (- j))"
        by (simp add: str_int_def)
      then have "hd (str_nat (nat i)) = CHR ''-''" by (metis list.sel(1))
      with nd [of "nat i"] show ?thesis by simp
    next
      case False
      with i eq have "nat i = nat j" by (simp add: str_int_def str_nat_inj)
      with i False show ?thesis by simp
    qed
  qed
qed

lemma str_nat_not_mem: "c \<notin> set ''0123456789'' \<Longrightarrow> c \<notin> set (str_nat n)"
  using str_nat_digits [of n] by blast

lemma str_int_not_mem:
  assumes "c \<notin> set ''0123456789''" and "c \<noteq> CHR ''-''"
  shows "c \<notin> set (str_int i)"
proof (cases "i < 0")
  case True
  have "c \<notin> set (str_nat (nat (- i)))" using assms(1) by (rule str_nat_not_mem)
  with True assms(2) show ?thesis by (simp add: str_int_def)
next
  case False
  have "c \<notin> set (str_nat (nat i))" using assms(1) by (rule str_nat_not_mem)
  with False show ?thesis by (simp add: str_int_def)
qed

lemma at_not_in_str_int: "CHR ''@'' \<notin> set (str_int i)"
  by (rule str_int_not_mem) simp_all

lemma slash_not_in_str_int: "CHR ''/'' \<notin> set (str_int i)"
  by (rule str_int_not_mem) simp_all

lemma x_not_in_str_int: "CHR ''x'' \<notin> set (str_int i)"
  by (rule str_int_not_mem) simp_all

lemma at_not_in_base_png: "CHR ''@'' \<notin> set (base_png t)"
  using at_not_in_str_int [of t] by (simp add: base_png_def iconset_dir_def)

lemma at_in_variant_png: "CHR ''@'' \<in> set (variant_png s)"
  by (simp add: variant_png_def)

lemma takeWhile_str_int: "takeWhile (\<lambda>c. c \<noteq> CHR ''x'') (str_int i @ CHR ''x'' # r) = str_int i"
proof -
  have "\<forall>c\<in>set (str_int i). c \<noteq> CHR ''x''" using x_not_in_str_int [of i] by blast
  then show ?thesis by (simp add: takeWhile_tail)
qed

lemma size_of_variant_png:
  "takeWhile (\<lambda>c. c \<noteq> CHR ''x'') (drop 23 (variant_png s)) = str_int s"
  using takeWhile_str_int [of s "str_int s @ ''@2x.png''"]
  by (simp add: variant_png_def iconset_dir_def)

lemma variant_png_inj:
  assumes "variant_png s = variant_png t"
  shows "s = t"
proof -
  have "str_int s = str_int t"
    using size_of_variant_png [of s] size_of_variant_png [of t] assms by simp
  then show ?thesis by (rule str_int_inj)
qed

lemma filter_slash_str_int: "filter (\<lambda>c. c = CHR ''/'') (str_int i) = []"
proof -
  have "\<forall>c\<in>set (str_int i). c \<noteq> CHR ''/''" using slash_not_in_str_int [of i] by blast
  then show ?thesis by (simp add: filter_empty_conv)
qed

lemma filter_slash_basename: "filter (\<lambda>c. c = CHR ''/'') (basename q) = []"
proof -
  have "\<forall>c\<in>set (basename q). c \<noteq> CHR ''/''"
    unfolding basename_def set_rev using set_takeWhileD by fastforce
  then show ?thesis by (simp add: filter_empty_conv)
qed

lemma slashes_variant_png: "slashes (variant_png s) = 3"
  by (simp add: slashes_def variant_png_def iconset_dir_def filter_slash_str_int)

lemma slashes_in_dir: "slashes (variant_png t @ ''/'' @ basename q) = 4"
  by (simp add: slashes_def variant_png_def iconset_dir_def filter_slash_str_int
      filter_slash_basename)

lemma variant_png_not_in_dir: "variant_png s \<noteq> variant_png t @ ''/'' @ basename q"
  using slashes_variant_png [of s] slashes_in_dir [of t q] by (metis numeral_eq_iff semiring_norm(89))

section \<open>The two loops\<close>

lemma and_then_Completed_iff:
  "and_then r k = Completed w' \<longleftrightarrow> (\<exists>w. r = Completed w \<and> k w = Completed w')"
  by (cases r) auto

lemma copy_pass_append:
  "copy_pass e (xs @ ys) w = and_then (copy_pass e xs w) (copy_pass e ys)"
proof (induction xs arbitrary: w)
  case Nil
  show ?case by simp
next
  case (Cons x xs)
  then show ?case by (cases "copy_step e x w") simp_all
qed

lemma render_pass_append:
  "render_pass e (xs @ ys) w = and_then (render_pass e xs w) (render_pass e ys)"
proof (induction xs arbitrary: w)
  case Nil
  show ?case by simp
next
  case (Cons x xs)
  then show ?case by (cases "run_draw e x w") simp_all
qed

lemma run_cp_Completed:
  assumes "run_cp e src dst w = Completed w'"
  shows "\<exists>b. fs w src = Some (File b)
           \<and> fs w (cp_target (fs w) src dst) \<noteq> Some Dir
           \<and> cp_status e src dst = Some 0
           \<and> w' = w\<lparr>calls := calls w @ [Cp src dst],
                    fs := (fs w)(cp_target (fs w) src dst \<mapsto> File b),
                    writes := writes w @ [cp_target (fs w) src dst]\<rparr>"
  using assms
  by (simp add: run_cp_def Let_def split: option.splits node.splits if_splits)

lemma copy_step_Completed:
  assumes "copy_step e s w = Completed w'"
  shows "(\<not> path_exists (fs w) (base_png (s * 2)) \<and> w' = w)
       \<or> (\<exists>b. fs w (base_png (s * 2)) = Some (File b)
             \<and> fs w (cp_target (fs w) (base_png (s * 2)) (variant_png s)) \<noteq> Some Dir
             \<and> cp_status e (base_png (s * 2)) (variant_png s) = Some 0
             \<and> w' = w\<lparr>calls := calls w @ [Cp (base_png (s * 2)) (variant_png s)],
                      fs := (fs w)(cp_target (fs w) (base_png (s * 2)) (variant_png s) \<mapsto> File b),
                      writes := writes w @ [cp_target (fs w) (base_png (s * 2)) (variant_png s)],
                      out := out w @ [''Created '' @ variant_png s]\<rparr>)"
proof (cases "path_exists (fs w) (base_png (s * 2))")
  case False
  with assms show ?thesis by (simp add: copy_step_def Let_def)
next
  case True
  with assms obtain w1 where
    cp: "run_cp e (base_png (s * 2)) (variant_png s) w = Completed w1"
    and pr: "print (''Created '' @ variant_png s) w1 = Completed w'"
    by (auto simp: copy_step_def Let_def and_then_Completed_iff)
  from run_cp_Completed [OF cp] pr show ?thesis
    by (auto simp: print_def)
qed

lemma at_in_cp_target: "CHR ''@'' \<in> set (cp_target f src (variant_png s))"
  using at_in_variant_png [of s] by (simp add: cp_target_def)

lemma cp_target_not_base: "cp_target f src (variant_png s) \<noteq> base_png t"
  using at_in_cp_target [of f src s] at_not_in_base_png [of t] by metis

lemma copy_step_frame:
  assumes "copy_step e t w = Completed w'" and "CHR ''@'' \<notin> set p"
  shows "fs w' p = fs w p"
  using copy_step_Completed [OF assms(1)] assms(2) at_in_cp_target [of "fs w" "base_png (t * 2)" t]
  by auto

lemma copy_step_no_new_dir:
  assumes "copy_step e t w = Completed w'" and "fs w p \<noteq> Some Dir"
  shows "fs w' p \<noteq> Some Dir"
  using copy_step_Completed [OF assms(1)] assms(2) by (auto split: if_splits)

lemma copy_step_keeps_paths:
  assumes "copy_step e t w = Completed w'" and "path_exists (fs w) p"
  shows "path_exists (fs w') p"
  using copy_step_Completed [OF assms(1)] assms(2) by (auto simp: path_exists_def)

lemma copy_step_copies:
  assumes "copy_step e s w = Completed w'"
    and "path_exists (fs w) (base_png (s * 2))"
    and "fs w (variant_png s) \<noteq> Some Dir"
  shows "\<exists>b. fs w (base_png (s * 2)) = Some (File b) \<and> fs w' (variant_png s) = Some (File b)"
  using copy_step_Completed [OF assms(1)] assms(2,3)
  by (auto simp: cp_target_def)

lemma copy_step_keeps_copy:
  assumes "copy_step e t w = Completed w'"
    and "fs w (base_png (s * 2)) = Some (File b)"
    and "fs w (variant_png s) = Some (File b)"
  shows "fs w' (variant_png s) = Some (File b)"
proof -
  from copy_step_Completed [OF assms(1)]
  consider "w' = w"
    | c where "fs w (base_png (t * 2)) = Some (File c)"
        "fs w' = (fs w)(cp_target (fs w) (base_png (t * 2)) (variant_png t) \<mapsto> File c)"
    by auto
  then show ?thesis
  proof cases
    case 1
    with assms(3) show ?thesis by simp
  next
    case 2
    show ?thesis
    proof (cases "cp_target (fs w) (base_png (t * 2)) (variant_png t) = variant_png s")
      case False
      with 2 assms(3) show ?thesis by simp
    next
      case True
      then have "variant_png t = variant_png s"
        using variant_png_not_in_dir [of s t "base_png (t * 2)"]
        by (simp add: cp_target_def split: if_splits)
      then have "t = s" by (rule variant_png_inj)
      with 2 assms(2) True show ?thesis by simp
    qed
  qed
qed

lemma copy_pass_frame:
  "copy_pass e xs w = Completed w' \<Longrightarrow> CHR ''@'' \<notin> set p \<Longrightarrow> fs w' p = fs w p"
proof (induction xs arbitrary: w)
  case Nil
  then show ?case by simp
next
  case (Cons x xs)
  from Cons.prems(1) obtain w1 where
    st: "copy_step e x w = Completed w1" and rest: "copy_pass e xs w1 = Completed w'"
    by (auto simp: and_then_Completed_iff)
  from Cons.IH [OF rest Cons.prems(2)] copy_step_frame [OF st Cons.prems(2)]
  show ?case by simp
qed

lemma copy_pass_keeps_paths:
  "copy_pass e xs w = Completed w' \<Longrightarrow> path_exists (fs w) p \<Longrightarrow> path_exists (fs w') p"
proof (induction xs arbitrary: w)
  case Nil
  then show ?case by simp
next
  case (Cons x xs)
  from Cons.prems(1) obtain w1 where
    st: "copy_step e x w = Completed w1" and rest: "copy_pass e xs w1 = Completed w'"
    by (auto simp: and_then_Completed_iff)
  from Cons.IH [OF rest copy_step_keeps_paths [OF st Cons.prems(2)]]
  show ?case .
qed

lemma copy_pass_keeps_copy:
  "copy_pass e xs w = Completed w' \<Longrightarrow> fs w (base_png (s * 2)) = Some (File b) \<Longrightarrow>
   fs w (variant_png s) = Some (File b) \<Longrightarrow> fs w' (variant_png s) = Some (File b)"
proof (induction xs arbitrary: w)
  case Nil
  then show ?case by simp
next
  case (Cons x xs)
  from Cons.prems(1) obtain w1 where
    st: "copy_step e x w = Completed w1" and rest: "copy_pass e xs w1 = Completed w'"
    by (auto simp: and_then_Completed_iff)
  have "fs w1 (base_png (s * 2)) = Some (File b)"
    using copy_step_frame [OF st at_not_in_base_png] Cons.prems(2) by simp
  moreover have "fs w1 (variant_png s) = Some (File b)"
    using copy_step_keeps_copy [OF st Cons.prems(2,3)] .
  ultimately show ?case using Cons.IH [OF rest] by simp
qed

lemma copy_pass_copies:
  "copy_pass e xs w = Completed w' \<Longrightarrow> s \<in> set xs \<Longrightarrow>
   path_exists (fs w) (base_png (s * 2)) \<Longrightarrow> fs w (variant_png s) \<noteq> Some Dir \<Longrightarrow>
   \<exists>b. fs w (base_png (s * 2)) = Some (File b) \<and> fs w' (variant_png s) = Some (File b)"
proof (induction xs arbitrary: w)
  case Nil
  then show ?case by simp
next
  case (Cons x xs)
  from Cons.prems(1) obtain w1 where
    st: "copy_step e x w = Completed w1" and rest: "copy_pass e xs w1 = Completed w'"
    by (auto simp: and_then_Completed_iff)
  have base1: "fs w1 (base_png (s * 2)) = fs w (base_png (s * 2))"
    using copy_step_frame [OF st at_not_in_base_png] .
  show ?case
  proof (cases "x = s")
    case True
    with st Cons.prems(3,4) obtain b where
      b: "fs w (base_png (s * 2)) = Some (File b)" "fs w1 (variant_png s) = Some (File b)"
      using copy_step_copies [of e s w w1] by auto
    with base1 copy_pass_keeps_copy [OF rest, of s b] show ?thesis by simp
  next
    case False
    with Cons.prems(2) have "s \<in> set xs" by simp
    moreover have "path_exists (fs w1) (base_png (s * 2))"
      using copy_step_keeps_paths [OF st Cons.prems(3)] .
    moreover have "fs w1 (variant_png s) \<noteq> Some Dir"
      using copy_step_no_new_dir [OF st Cons.prems(4)] .
    ultimately show ?thesis using Cons.IH [OF rest] base1 by simp
  qed
qed

section \<open>Evaluation, the first loop, and runs in which every child succeeds\<close>

lemmas path_eval = base_png_def variant_png_def iconset_dir_def icns_path_def str_int_def
  str_nat.simps

lemmas script_eval = main_def prepare_def start_def makedirs_exist_ok_def sizes_def sizes_2x_def
  run_draw_def run_cp_def copy_step_def cp_target_def path_exists_def print_def
  convert_to_icns_def captured_text_def Let_def

lemmas text_eval = utf8_text_def continuation_def char_of_def bit_Suc_0_iff

lemmas double_eval = border_line_width_def cursorW_def cursorH_def chevron_def float_lit_def
  py_max_def
  double_of_ratio_def round_double_def round_div_def bitlen_def pow2_def Let_def
  compute_floorlog

lemma completed_final: "exit_status r = 0 \<Longrightarrow> r = Completed (final_world r)"
  by (cases r) simp_all

lemma run_draw_Completed:
  assumes "run_draw e s w = Completed w'"
  shows "\<exists>r. draw e s = Some r \<and> d_returncode r = 0
           \<and> calls w' = calls w @ [Python3_c s (base_png s)] \<and> out w' = out w
           \<and> (case d_png r of
                 None \<Rightarrow> fs w' = fs w \<and> writes w' = writes w
               | Some b \<Rightarrow> fs w' = (fs w)(base_png s \<mapsto> File b)
                            \<and> writes w' = writes w @ [base_png s])"
  using assms
  by (auto simp: run_draw_def Let_def split: option.splits if_splits)

lemma run_draw_exit_zero:
  assumes "draw e s = Some r" and "d_returncode r = 0"
  shows "\<exists>w'. run_draw e s w = Completed w'
            \<and> calls w' = calls w @ [Python3_c s (base_png s)]"
  using assms by (simp add: run_draw_def Let_def split: option.splits)

lemma run_draw_exit_nonzero:
  assumes "draw e s = Some r" and "d_returncode r \<noteq> 0"
  shows "\<exists>w'. run_draw e s w
              = Aborted (CalledProcessError (d_returncode r) (Python3_c s (base_png s))) w'
            \<and> calls w' = calls w @ [Python3_c s (base_png s)]"
  using assms by (simp add: run_draw_def Let_def split: option.splits)

lemma render_pass_exit_zero:
  "\<forall>t\<in>set xs. \<exists>r. draw e t = Some r \<and> d_returncode r = 0 \<Longrightarrow>
   \<exists>w'. render_pass e xs w = Completed w'
       \<and> calls w' = calls w @ map (\<lambda>t. Python3_c t (base_png t)) xs"
proof (induction xs arbitrary: w)
  case Nil
  show ?case by simp
next
  case (Cons x xs)
  from Cons.prems obtain r where "draw e x = Some r" "d_returncode r = 0" by auto
  from run_draw_exit_zero [OF this, of w] obtain w1 where
    w1: "run_draw e x w = Completed w1" "calls w1 = calls w @ [Python3_c x (base_png x)]"
    by blast
  from Cons.prems have "\<forall>t\<in>set xs. \<exists>r. draw e t = Some r \<and> d_returncode r = 0" by simp
  from Cons.IH [OF this, of w1] w1 show ?case by auto
qed

lemma makedirs_Completed:
  assumes "makedirs_exist_ok e d w = Completed w0"
  shows "out w0 = out w \<and> calls w0 = calls w \<and> writes w0 = writes w
         \<and> fs w0 d = Some Dir \<and> (\<forall>p. p \<noteq> d \<longrightarrow> fs w0 p = fs w p)"
  using assms
  by (auto simp: makedirs_exist_ok_def split: option.splits node.splits if_splits)

lemma run_draw_keeps_files:
  assumes "run_draw e s w = Completed w'" and "fs w p = Some (File b)"
  shows "\<exists>c. fs w' p = Some (File c)"
  using run_draw_Completed [OF assms(1)] assms(2)
  by (auto split: option.splits)

lemma render_pass_keeps_files:
  "render_pass e xs w = Completed w' \<Longrightarrow> fs w p = Some (File b) \<Longrightarrow>
   \<exists>c. fs w' p = Some (File c)"
proof (induction xs arbitrary: w b)
  case Nil
  then show ?case by simp
next
  case (Cons x xs)
  from Cons.prems(1) obtain w1 where
    st: "run_draw e x w = Completed w1" and rest: "render_pass e xs w1 = Completed w'"
    by (auto simp: and_then_Completed_iff)
  from run_draw_keeps_files [OF st Cons.prems(2)] obtain c where "fs w1 p = Some (File c)"
    by blast
  from Cons.IH [OF rest this] show ?case .
qed

lemma render_pass_writes_file:
  "render_pass e xs w = Completed w' \<Longrightarrow> t \<in> set xs \<Longrightarrow> draw e t = Some r \<Longrightarrow>
   d_png r \<noteq> None \<Longrightarrow> \<exists>b. fs w' (base_png t) = Some (File b)"
proof (induction xs arbitrary: w)
  case Nil
  then show ?case by simp
next
  case (Cons x xs)
  from Cons.prems(1) obtain w1 where
    st: "run_draw e x w = Completed w1" and rest: "render_pass e xs w1 = Completed w'"
    by (auto simp: and_then_Completed_iff)
  show ?case
  proof (cases "x = t")
    case True
    with run_draw_Completed [OF st] Cons.prems(3,4)
    obtain b where "fs w1 (base_png t) = Some (File b)" by auto
    from render_pass_keeps_files [OF rest this] show ?thesis .
  next
    case False
    with Cons.prems(2) have "t \<in> set xs" by simp
    from Cons.IH [OF rest this Cons.prems(3,4)] show ?thesis .
  qed
qed

lemma doubled_sizes_rendered: "s \<in> set sizes_2x \<Longrightarrow> s * 2 \<in> set sizes"
  by (auto simp: sizes_2x_def sizes_def)






section \<open>The claims\<close>

text \<open>
  Claim C1. When the second loop has run to its end, then for every size \<open>s\<close> of its
  list whose source \<^verbatim>\<open>icon_<2s>x<2s>.png\<close> was there (and whose destination was not a
  directory), \<^verbatim>\<open>icon_<s>x<s>@2x.png\<close> is a regular file with the very bytes of the
  source, which the loop has left as it was: the variant comes from the copy.
\<close>

theorem density_variant_identical:
  assumes "copy_pass e sizes_2x w = Completed w'"
    and "s \<in> set sizes_2x"
    and "path_exists (fs w) (base_png (s * 2))"
    and "fs w (variant_png s) \<noteq> Some Dir"
  shows "\<exists>b. fs w' (variant_png s) = Some (File b) \<and> fs w' (base_png (s * 2)) = Some (File b)"
proof -
  from copy_pass_copies [OF assms] obtain b where
    b: "fs w (base_png (s * 2)) = Some (File b)" "fs w' (variant_png s) = Some (File b)"
    by blast
  from copy_pass_frame [OF assms(1) at_not_in_base_png] b(1)
  have "fs w' (base_png (s * 2)) = Some (File b)" by simp
  with b(2) show ?thesis by blast
qed

theorem density_variant_identical_witness:
  "fs (final_world (copy_pass working_env sizes_2x rendered_world)) (variant_png 256)
     = Some (File [32])
   \<and> fs (final_world (copy_pass working_env sizes_2x rendered_world)) (base_png (256 * 2))
     = Some (File [32])"
proof -
  have h1: "copy_pass working_env sizes_2x rendered_world
            = Completed (final_world (copy_pass working_env sizes_2x rendered_world))"
    by (rule completed_final)
      (simp add: rendered_world_def working_env_def script_eval path_eval)
  have h2: "(256::int) \<in> set sizes_2x" by (simp add: sizes_2x_def)
  have h3: "path_exists (fs rendered_world) (base_png (256 * 2))"
    by (simp add: rendered_world_def working_env_def script_eval path_eval)
  have h4: "fs rendered_world (variant_png 256) \<noteq> Some Dir"
    by (simp add: rendered_world_def working_env_def script_eval path_eval)
  have h5: "fs (final_world (copy_pass working_env sizes_2x rendered_world)) (base_png (256 * 2))
            = Some (File [32])"
    by (simp add: rendered_world_def working_env_def script_eval path_eval)
  from density_variant_identical [OF h1 h2 h3 h4] h5 show ?thesis by auto
qed

text \<open>
  Claim C2 says that a conversion that exits with a status other than 0 always ends in
  the error line and a normal end. It fails when what \<^verbatim>\<open>iconutil\<close> wrote to its
  standard error is not text in the encoding of the locale: \<^verbatim>\<open>subprocess.run\<close> with
  \<^verbatim>\<open>text=True\<close> raises \<^verbatim>\<open>UnicodeDecodeError\<close>, nothing catches it, no error line is
  printed (the output is the five lines of the copies) and the exit status is 1.
\<close>

theorem undecodable_stderr_counterexample:
  "iconutil undecodable_stderr_env
     = Some \<lparr>c_returncode = 1, c_stdout = [], c_stderr = [0xFF], c_icns = None\<rparr>
   \<and> raised (main undecodable_stderr_env Map.empty) = Some UnicodeDecodeError
   \<and> exit_status (main undecodable_stderr_env Map.empty) = 1
   \<and> out (final_world (main undecodable_stderr_env Map.empty))
     = [''Created /tmp/Term.iconset/icon_16x16@2x.png'',
        ''Created /tmp/Term.iconset/icon_32x32@2x.png'',
        ''Created /tmp/Term.iconset/icon_128x128@2x.png'',
        ''Created /tmp/Term.iconset/icon_256x256@2x.png'',
        ''Created /tmp/Term.iconset/icon_512x512@2x.png'']"
  by (simp add: undecodable_stderr_env_def working_env_def script_eval path_eval text_eval)

text \<open>
  Claim C2, amended. When the script reaches the conversion, \<^verbatim>\<open>iconutil\<close> exits with
  a status other than 0 and its captured output is text that can be decoded, the script
  prints \<^verbatim>\<open>Error: \<close> followed by the decoded standard error as its last line, raises
  nothing and ends with exit status 0.
\<close>

theorem conversion_failure_reported:
  assumes "prepare e f = Completed w"
    and "iconutil e = Some p"
    and "c_returncode p \<noteq> 0"
    and "captured_text e p = Some r"
  shows "\<exists>w'. main e f = Completed w'
           \<and> out w' = out w @ [''Error: '' @ stderr r]
           \<and> exit_status (main e f) = 0"
  using assms
  by (auto simp: main_def convert_to_icns_def captured_text_def print_def Let_def
      split: option.splits)

theorem conversion_failure_reported_witness:
  "exit_status (main failing_convert_env Map.empty) = 0
   \<and> last (out (final_world (main failing_convert_env Map.empty))) = ''Error: Invalid Iconset.''"
proof -
  have h1: "prepare failing_convert_env Map.empty
            = Completed (final_world (prepare failing_convert_env Map.empty))"
    by (rule completed_final)
      (simp add: failing_convert_env_def working_env_def script_eval path_eval)
  have h2: "iconutil failing_convert_env
            = Some \<lparr>c_returncode = 1, c_stdout = [],
                    c_stderr = [0x49, 0x6E, 0x76, 0x61, 0x6C, 0x69, 0x64, 0x20,
                                0x49, 0x63, 0x6F, 0x6E, 0x73, 0x65, 0x74, 0x2E],
                    c_icns = None\<rparr>"
    by (simp add: failing_convert_env_def)
  have h3: "c_returncode \<lparr>c_returncode = 1, c_stdout = [],
                    c_stderr = [0x49, 0x6E, 0x76, 0x61, 0x6C, 0x69, 0x64, 0x20,
                                0x49, 0x63, 0x6F, 0x6E, 0x73, 0x65, 0x74, 0x2E],
                    c_icns = None\<rparr> \<noteq> 0"
    by simp
  have h4: "captured_text failing_convert_env
              \<lparr>c_returncode = 1, c_stdout = [],
                c_stderr = [0x49, 0x6E, 0x76, 0x61, 0x6C, 0x69, 0x64, 0x20,
                            0x49, 0x63, 0x6F, 0x6E, 0x73, 0x65, 0x74, 0x2E],
                c_icns = None\<rparr>
            = Some \<lparr>returncode = 1, stdout = [], stderr = ''Invalid Iconset.''\<rparr>"
    by (simp add: captured_text_def failing_convert_env_def working_env_def text_eval)
  from conversion_failure_reported [OF h1 h2 h3 h4] show ?thesis by auto
qed

text \<open>
  Claim C3 says that only the exit status of the conversion is checked and acted upon.
  It fails: with the conversion behaving the same, a drawing child that exits with 1
  makes the run end in \<^verbatim>\<open>CalledProcessError\<close> with exit status 1, before
  \<^verbatim>\<open>iconutil\<close> is ever started.
\<close>

theorem only_conversion_checked_counterexample:
  "iconutil failing_draw_env = iconutil working_env
   \<and> exit_status (main working_env Map.empty) = 0
   \<and> exit_status (main failing_draw_env Map.empty) = 1
   \<and> raised (main failing_draw_env Map.empty)
     = Some (CalledProcessError 1 (Python3_c 64 ''/tmp/Term.iconset/icon_64x64.png''))
   \<and> Iconutil iconset_dir icns_path
     \<notin> set (calls (final_world (main failing_draw_env Map.empty)))"
  by (simp add: failing_draw_env_def working_env_def script_eval path_eval text_eval)

text \<open>
  Claim C3, amended. The exit status of every child is acted upon. A drawing child or a
  \<^verbatim>\<open>cp\<close> that exits with a status other than 0 raises \<^verbatim>\<open>CalledProcessError\<close>
  (\<^verbatim>\<open>check=True\<close>), which ends the run; the status of the conversion is the only one the
  script looks at itself: once \<^verbatim>\<open>subprocess.run\<close> has returned its result, it never
  raises, and selects the two lines of the success banner or the error line.
\<close>

theorem every_exit_status_acted_upon:
  "(draw e s = Some r \<longrightarrow> d_returncode r \<noteq> 0 \<longrightarrow>
      raised (run_draw e s w)
        = Some (CalledProcessError (d_returncode r) (Python3_c s (base_png s))))
   \<and> (cp_status e src dst = Some rc \<longrightarrow> rc \<noteq> 0 \<longrightarrow>
      (\<exists>rc'. rc' \<noteq> 0
         \<and> raised (run_cp e src dst w) = Some (CalledProcessError rc' (Cp src dst))))
   \<and> (iconutil e = Some p \<longrightarrow> captured_text e p = Some c \<longrightarrow>
      raised (convert_to_icns e w) = None
      \<and> out (final_world (convert_to_icns e w))
        = out w @ (if returncode c = 0 then [banner, install_hint]
                   else [''Error: '' @ stderr c]))"
  by (auto simp: run_draw_def run_cp_def convert_to_icns_def print_def Let_def
      split: option.splits node.splits)

theorem every_exit_status_acted_upon_witness:
  "raised (run_draw failing_draw_env 64 (start Map.empty))
     = Some (CalledProcessError 1 (Python3_c 64 (base_png 64)))
   \<and> (\<exists>rc'. rc' \<noteq> 0
        \<and> raised (run_cp failing_cp_env (base_png 32) (variant_png 16) rendered_world)
          = Some (CalledProcessError rc' (Cp (base_png 32) (variant_png 16))))
   \<and> raised (convert_to_icns failing_convert_env (start Map.empty)) = None
   \<and> out (final_world (convert_to_icns failing_convert_env (start Map.empty)))
     = [''Error: Invalid Iconset.'']"
  using every_exit_status_acted_upon [where e = failing_draw_env and s = 64
      and r = "\<lparr>d_returncode = 1, d_png = None\<rparr>" and w = "start Map.empty"]
    every_exit_status_acted_upon [where e = failing_cp_env and w = rendered_world
      and src = "base_png 32" and dst = "variant_png 16" and rc = 1]
    every_exit_status_acted_upon [where e = failing_convert_env and w = "start Map.empty"
      and p = "\<lparr>c_returncode = 1, c_stdout = [],
                c_stderr = [0x49, 0x6E, 0x76, 0x61, 0x6C, 0x69, 0x64, 0x20,
                            0x49, 0x63, 0x6F, 0x6E, 0x73, 0x65, 0x74, 0x2E],
                c_icns = None\<rparr>"
      and c = "\<lparr>returncode = 1, stdout = [], stderr = ''Invalid Iconset.''\<rparr>"]
  by (simp add: failing_draw_env_def failing_cp_env_def failing_convert_env_def
      working_env_def start_def captured_text_def text_eval)

text \<open>
  Claim C4. When the second loop comes to a size \<open>s\<close> of its list and the source
  \<^verbatim>\<open>icon_<2s>x<2s>.png\<close> does not exist, the iteration does nothing at all: the loop goes
  on with the sizes after \<open>s\<close> from the very state it was in, with no exception, no
  child process, no file and no line printed for \<open>s\<close>.
\<close>

theorem missing_source_skipped:
  assumes "sizes_2x = pre @ s # post"
    and "copy_pass e pre w = Completed w1"
    and "\<not> path_exists (fs w1) (base_png (s * 2))"
  shows "copy_pass e sizes_2x w = copy_pass e post w1"
  using assms(2,3) unfolding assms(1) by (simp add: copy_pass_append copy_step_def)

theorem missing_source_skipped_witness:
  "copy_pass working_env sizes_2x (start Map.empty) = Completed (start Map.empty)"
proof -
  have h1: "sizes_2x = [] @ 16 # [32, 128, 256, 512]" by (simp add: sizes_2x_def)
  have h2: "copy_pass working_env [] (start Map.empty) = Completed (start Map.empty)" by simp
  have h3: "\<not> path_exists (fs (start Map.empty)) (base_png (16 * 2))"
    by (simp add: start_def path_exists_def)
  from missing_source_skipped [OF h1 h2 h3] show ?thesis
    by (simp add: copy_step_def start_def path_exists_def)
qed

text \<open>
  Claim C5. When the children for the sizes before \<open>s\<close> have exited with 0 and the child
  for \<open>s\<close> exits with a status other than 0, the script ends at once with
  \<^verbatim>\<open>CalledProcessError\<close> carrying that status and that command: the children started
  are those up to \<open>s\<close> and no other (no later size, no copy, no conversion), and the
  exit status of the script is 1.
\<close>

theorem drawing_failure_is_fatal:
  assumes "sizes = pre @ s # post"
    and "\<forall>t\<in>set pre. \<exists>r. draw e t = Some r \<and> d_returncode r = 0"
    and "draw e s = Some r"
    and "d_returncode r \<noteq> 0"
    and "makedirs_exist_ok e iconset_dir (start f) = Completed w0"
  shows "\<exists>w'. main e f = Aborted (CalledProcessError (d_returncode r) (Python3_c s (base_png s))) w'
            \<and> calls w' = map (\<lambda>t. Python3_c t (base_png t)) (pre @ [s])
            \<and> exit_status (main e f) = 1"
proof -
  from makedirs_Completed [OF assms(5)] have c0: "calls w0 = []" by (simp add: start_def)
  from render_pass_exit_zero [OF assms(2), of w0] c0 obtain w1 where
    w1: "render_pass e pre w0 = Completed w1"
        "calls w1 = map (\<lambda>t. Python3_c t (base_png t)) pre"
    by auto
  from run_draw_exit_nonzero [OF assms(3,4), of w1] w1(2) obtain w2 where
    w2: "run_draw e s w1
         = Aborted (CalledProcessError (d_returncode r) (Python3_c s (base_png s))) w2"
        "calls w2 = map (\<lambda>t. Python3_c t (base_png t)) (pre @ [s])"
    by auto
  have "render_pass e sizes w0
        = Aborted (CalledProcessError (d_returncode r) (Python3_c s (base_png s))) w2"
    unfolding assms(1) using w1(1) w2(1) by (simp add: render_pass_append)
  then have "main e f
        = Aborted (CalledProcessError (d_returncode r) (Python3_c s (base_png s))) w2"
    using assms(5) by (simp add: main_def prepare_def)
  with w2(2) show ?thesis by simp
qed

theorem drawing_failure_is_fatal_witness:
  "raised (main failing_draw_env Map.empty)
     = Some (CalledProcessError 1 (Python3_c 64 (base_png 64)))
   \<and> calls (final_world (main failing_draw_env Map.empty))
     = [Python3_c 16 (base_png 16), Python3_c 32 (base_png 32), Python3_c 64 (base_png 64)]
   \<and> exit_status (main failing_draw_env Map.empty) = 1"
proof -
  have h1: "sizes = [16, 32] @ 64 # [128, 256, 512, 1024]" by (simp add: sizes_def)
  have h2: "\<forall>t\<in>set [16, 32]. \<exists>r. draw failing_draw_env t = Some r \<and> d_returncode r = 0"
    by (simp add: failing_draw_env_def working_env_def)
  have h3: "draw failing_draw_env 64 = Some \<lparr>d_returncode = 1, d_png = None\<rparr>"
    by (simp add: failing_draw_env_def)
  have h4: "d_returncode \<lparr>d_returncode = 1, d_png = None\<rparr> \<noteq> 0" by simp
  have h5: "makedirs_exist_ok failing_draw_env iconset_dir (start Map.empty)
            = Completed (final_world (makedirs_exist_ok failing_draw_env iconset_dir
                (start Map.empty)))"
    by (rule completed_final)
      (simp add: makedirs_exist_ok_def start_def failing_draw_env_def working_env_def)
  from drawing_failure_is_fatal [OF h1 h2 h3 h4 h5] show ?thesis by auto
qed

text \<open>
  Claim C6. For size 100 the inline program computes the cursor width 22, the cursor
  height 4.5 (the greater of 2 and 4.5) and the border line width 1.5 (the greater of 1
  and 1.5), exactly, in double precision.
\<close>

theorem measurements_at_100:
  "num_val (cursorW 100) = 22 \<and> num_val (cursorH 100) = 9 / 2
   \<and> num_val (border_line_width 100) = 3 / 2"
  by (simp add: double_eval)






text \<open>
  Claim C9. The double of every size of the second list is in the first list; so, when
  the first loop has completed and each child has written its image, the source of a
  copy exists whenever the second loop reaches the \<^verbatim>\<open>os.path.exists\<close> test for it: the
  branch that skips the copy is never taken.
\<close>

theorem copy_sources_present:
  assumes "render_pass e sizes w0 = Completed w"
    and "\<forall>t\<in>set sizes. \<exists>r. draw e t = Some r \<and> d_png r \<noteq> None"
    and "sizes_2x = pre @ s # post"
    and "copy_pass e pre w = Completed w1"
  shows "s * 2 \<in> set sizes \<and> path_exists (fs w1) (base_png (s * 2))"
proof -
  have "s \<in> set sizes_2x" unfolding assms(3) by simp
  then have mem: "s * 2 \<in> set sizes" by (rule doubled_sizes_rendered)
  with assms(2) obtain r where "draw e (s * 2) = Some r" "d_png r \<noteq> None" by auto
  from render_pass_writes_file [OF assms(1) mem this]
  have "path_exists (fs w) (base_png (s * 2))" by (auto simp: path_exists_def)
  from copy_pass_keeps_paths [OF assms(4) this] mem show ?thesis by simp
qed

theorem copy_sources_present_witness:
  "512 * 2 \<in> set sizes
   \<and> path_exists
       (fs (final_world (copy_pass working_env [16, 32, 128, 256] rendered_world)))
       (base_png (512 * 2))"
proof -
  have h1: "render_pass working_env sizes (start Map.empty) = Completed rendered_world"
    unfolding rendered_world_def
    by (rule completed_final) (simp add: working_env_def script_eval path_eval)
  have h2: "\<forall>t\<in>set sizes. \<exists>r. draw working_env t = Some r \<and> d_png r \<noteq> None"
    by (simp add: working_env_def)
  have h3: "sizes_2x = [16, 32, 128, 256] @ 512 # []" by (simp add: sizes_2x_def)
  have h4: "copy_pass working_env [16, 32, 128, 256] rendered_world
            = Completed (final_world (copy_pass working_env [16, 32, 128, 256] rendered_world))"
    by (rule completed_final)
      (simp add: rendered_world_def working_env_def script_eval path_eval)
  from copy_sources_present [OF h1 h2 h3 h4] show ?thesis .
qed

text \<open>
  Claim C10. When \<^verbatim>\<open>/tmp/Term.iconset\<close> is already a directory, \<^verbatim>\<open>os.makedirs\<close> with
  \<^verbatim>\<open>exist_ok=True\<close> raises nothing and changes nothing; and a file left by an earlier
  run at the path of a base image, of a variant or of the container is no obstacle: the
  step completes and the path holds the new bytes.
\<close>

theorem rerun_tolerated:
  "(fs w iconset_dir = Some Dir \<longrightarrow> makedirs_exist_ok e iconset_dir w = Completed w)
   \<and> (draw e s = Some r \<longrightarrow> d_returncode r = 0 \<longrightarrow> d_png r = Some b \<longrightarrow>
      fs w (base_png s) = Some (File old) \<longrightarrow>
      raised (run_draw e s w) = None
      \<and> fs (final_world (run_draw e s w)) (base_png s) = Some (File b))
   \<and> (cp_status e (base_png (s * 2)) (variant_png s) = Some 0 \<longrightarrow>
      fs w (base_png (s * 2)) = Some (File b) \<longrightarrow>
      fs w (variant_png s) = Some (File old) \<longrightarrow>
      raised (copy_step e s w) = None
      \<and> fs (final_world (copy_step e s w)) (variant_png s) = Some (File b))
   \<and> (iconutil e = Some p \<longrightarrow> captured_text e p = Some c \<longrightarrow> c_icns p = Some b \<longrightarrow>
      fs w icns_path = Some (File old) \<longrightarrow>
      raised (convert_to_icns e w) = None
      \<and> fs (final_world (convert_to_icns e w)) icns_path = Some (File b))"
  by (auto simp: makedirs_exist_ok_def run_draw_def copy_step_def run_cp_def cp_target_def
      path_exists_def convert_to_icns_def print_def Let_def)

theorem rerun_tolerated_witness:
  "makedirs_exist_ok working_env iconset_dir (start stale_files) = Completed (start stale_files)
   \<and> raised (run_draw working_env 16 (start stale_files)) = None
   \<and> fs (final_world (run_draw working_env 16 (start stale_files))) (base_png 16)
     = Some (File [1])
   \<and> raised (copy_step working_env 16 (start stale_files)) = None
   \<and> fs (final_world (copy_step working_env 16 (start stale_files))) (variant_png 16)
     = Some (File [9])
   \<and> raised (convert_to_icns working_env (start stale_files)) = None
   \<and> fs (final_world (convert_to_icns working_env (start stale_files))) icns_path
     = Some (File [105, 99, 110, 115])"
  using rerun_tolerated [where w = "start stale_files" and e = working_env and s = 16
      and r = "\<lparr>d_returncode = 0, d_png = Some [1]\<rparr>" and b = "[1]" and old = "[7]"]
    rerun_tolerated [where w = "start stale_files" and e = working_env and s = 16
      and b = "[9]" and old = "[7]"]
    rerun_tolerated [where w = "start stale_files" and e = working_env
      and b = "[105, 99, 110, 115]" and old = "[]"
      and p = "\<lparr>c_returncode = 0, c_stdout = [], c_stderr = [],
                c_icns = Some [105, 99, 110, 115]\<rparr>"
      and c = "\<lparr>returncode = 0, stdout = [], stderr = []\<rparr>"]
  by (simp add: working_env_def start_def stale_files_def path_eval captured_text_def
      text_eval)

end
